theory Spec2Isabelle
  imports Main
begin

section \<open>The authorities registry of konnect (identity/authorities/registry.go)\<close>

text \<open>
  The registry keeps a Go map from authority IDs to pointers to
  \<^verbatim>\<open>AuthorityRegistration\<close> structs. \<^verbatim>\<open>Register\<close> writes through the pointer it is
  given, and the map, the caller and a discovery goroutine share the struct
  afterwards. The model therefore has an explicit store: a pointer is an address,
  the store maps every address to the struct that lives there, and the registry's
  map holds addresses. Pointers are non-nil throughout (a nil argument makes
  \<^verbatim>\<open>Register\<close> panic on its first line, before anything is written).

  The two mutexes are not modelled: every function below is the sequential
  behaviour of one call.
\<close>

subsection \<open>Data model\<close>

type_synonym addr = nat

type_synonym AuthorityType = string

datatype URL = URL string

type_synonym PublicKey = string

text \<open>
  The errors the registry creates, and the errors handed to it by its collaborators:
  \<^item> \<open>NoAuthorityID\<close> is \<^verbatim>\<open>errors.New("no authority id")\<close>;
  \<^item> \<open>InvalidAuthorityClientID\<close> is \<^verbatim>\<open>errors.New("invalid authority client_id")\<close>;
  \<^item> \<open>UnknownAuthorityType t\<close> is \<^verbatim>\<open>fmt.Errorf("unknown authority type: %v", t)\<close>;
  \<^item> \<open>UnknownAuthorityID i\<close> is \<^verbatim>\<open>fmt.Errorf("unknown authority id: %v", i)\<close>;
  \<^item> \<open>ExternalError s\<close> is an error returned by \<^verbatim>\<open>ioutil.ReadFile\<close>,
    \<^verbatim>\<open>yaml.Unmarshal\<close> or \<^verbatim>\<open>Validate\<close>.
\<close>

datatype error =
    NoAuthorityID
  | InvalidAuthorityClientID
  | UnknownAuthorityType AuthorityType
  | UnknownAuthorityID string
  | ExternalError string

text \<open>
  \<^verbatim>\<open>Details\<close>, with the fields \<^verbatim>\<open>Lookup\<close> fills. \<open>Registration\<close> is the pointer back
  to the registration. A nil \<^verbatim>\<open>*url.URL\<close> and a nil key map are \<open>None\<close>.
\<close>

record Details =
  ID :: string
  Name :: string
  AuthorityType :: AuthorityType
  ClientID :: string
  ClientSecret :: string
  Insecure :: bool
  Scopes :: "string list"
  ResponseType :: string
  CodeChallengeMethod :: string
  Registration :: addr
  AuthorizationEndpoint :: "URL option"
  validationKeys :: "(string \<rightharpoonup> PublicKey) option"
  ready :: bool

text \<open>
  \<^verbatim>\<open>AuthorityRegistration\<close>, with the fields that registry.go reads or writes.
  Declared after \<open>Details\<close>, so that an unqualified field name is the
  registration's; the fields of \<open>Details\<close> are written \<open>Details.ID\<close> and so on.
\<close>

record AuthorityRegistration =
  ID :: string
  Name :: string
  AuthorityType :: AuthorityType
  ClientID :: string
  ClientSecret :: string
  Insecure :: bool
  Default :: bool
  discover :: bool
  IdentityAliasRequired :: bool
  Scopes :: "string list"
  ResponseType :: string
  CodeChallengeMethod :: string
  IdentityClaimName :: string
  ready :: bool
  authorizationEndpoint :: "URL option"
  validationKeys :: "(string \<rightharpoonup> PublicKey) option"

text \<open>
  The package constants that \<^verbatim>\<open>Register\<close> uses. Their declarations are in another
  file of the package, so they are parameters of the model.
\<close>

record Consts =
  AuthorityTypeOIDC :: AuthorityType
  authorityDefaultScopes :: "string list"
  authorityDefaultResponseType :: string
  authorityDefaultCodeChallengeMethod :: string
  authorityDefaultIdentityClaimName :: string

text \<open>
  The logger is a trace of entries: level, message and the error attached with
  \<^verbatim>\<open>WithError\<close>. The structured fields (\<^verbatim>\<open>WithField\<close>, \<^verbatim>\<open>WithFields\<close>) are left out.
\<close>

datatype Level = DebugLevel | InfoLevel | WarnLevel

datatype LogEntry = LogEntry Level string "error option"

text \<open>
  The memory outside the \<^verbatim>\<open>Registry\<close> struct: the store of registrations, the
  log written so far, and the registrations for which
  \<^verbatim>\<open>go authority.Initialize(ctx, logger)\<close> has been started, in order.
\<close>

record Mem =
  heap :: "addr \<Rightarrow> AuthorityRegistration"
  log :: "LogEntry list"
  spawned :: "addr list"

record Registry =
  defaultID :: string
  authorities :: "string \<rightharpoonup> addr"

definition logln :: "Level \<Rightarrow> string \<Rightarrow> error option \<Rightarrow> Mem \<Rightarrow> Mem" where
  "logln lv msg e m = m\<lparr>log := log m @ [LogEntry lv msg e]\<rparr>"

definition store :: "addr \<Rightarrow> (AuthorityRegistration \<Rightarrow> AuthorityRegistration) \<Rightarrow> Mem \<Rightarrow> Mem" where
  "store p f m = m\<lparr>heap := (heap m)(p := f (heap m p))\<rparr>"

subsection \<open>Register\<close>

text \<open>
  \<^verbatim>\<open>func (r *Registry) Register(authority *AuthorityRegistration) error\<close>.
  The result is the returned error (\<open>None\<close> for nil), the registry and the memory
  after the call. Every assignment to a field of \<^verbatim>\<open>authority\<close> is a \<open>store\<close>.
\<close>

definition Register ::
  "Consts \<Rightarrow> addr \<Rightarrow> Registry \<Rightarrow> Mem \<Rightarrow> error option \<times> Registry \<times> Mem" where
  "Register c authority r m =
    (if ID (heap m authority) = [] \<and> Name (heap m authority) = []
     then (Some NoAuthorityID, r, m)
     else
       let m1 = (if ID (heap m authority) = []
                 then logln WarnLevel ''authority has no id, using name'' None
                        (store authority (\<lambda>a. a\<lparr>ID := Name a\<rparr>) m)
                 else m)
       in
       if ClientID (heap m1 authority) = []
       then (Some InvalidAuthorityClientID, r, m1)
       else if AuthorityType (heap m1 authority) = AuthorityTypeOIDC c
       then
         let m2 = (if Scopes (heap m1 authority) = []
                   then store authority (\<lambda>a. a\<lparr>Scopes := authorityDefaultScopes c\<rparr>) m1
                   else m1);
             m3 = (if ResponseType (heap m2 authority) = []
                   then store authority
                          (\<lambda>a. a\<lparr>ResponseType := authorityDefaultResponseType c\<rparr>) m2
                   else m2);
             m4 = (if CodeChallengeMethod (heap m3 authority) = []
                   then store authority
                          (\<lambda>a. a\<lparr>CodeChallengeMethod :=
                                     authorityDefaultCodeChallengeMethod c\<rparr>) m3
                   else m3);
             m5 = (if IdentityClaimName (heap m4 authority) = []
                   then store authority
                          (\<lambda>a. a\<lparr>IdentityClaimName :=
                                     authorityDefaultIdentityClaimName c\<rparr>) m4
                   else m4)
         in (None,
             r\<lparr>authorities := (authorities r)(ID (heap m5 authority) \<mapsto> authority)\<rparr>,
             m5)
       else (Some (UnknownAuthorityType (AuthorityType (heap m1 authority))), r, m1))"

subsection \<open>Get, Lookup, Default\<close>

text \<open>
  \<^verbatim>\<open>Get\<close> returns the pointer and the found flag; \<open>None\<close> is \<^verbatim>\<open>(nil, false)\<close>.
\<close>

definition Get :: "Registry \<Rightarrow> string \<Rightarrow> addr option" where
  "Get r authorityID = (if authorityID = [] then None else authorities r authorityID)"

definition Lookup :: "Registry \<Rightarrow> Mem \<Rightarrow> string \<Rightarrow> error + Details" where
  "Lookup r m authorityID =
    (case Get r authorityID of
       None \<Rightarrow> Inl (UnknownAuthorityID authorityID)
     | Some registration \<Rightarrow>
         let reg = heap m registration;
             details = \<lparr>Details.ID = ID reg,
                        Name = Name reg,
                        AuthorityType = AuthorityType reg,
                        ClientID = ClientID reg,
                        ClientSecret = ClientSecret reg,
                        Insecure = Insecure reg,
                        Scopes = Scopes reg,
                        ResponseType = ResponseType reg,
                        CodeChallengeMethod = CodeChallengeMethod reg,
                        Registration = registration,
                        AuthorizationEndpoint = None,
                        validationKeys = None,
                        ready = ready reg\<rparr>
         in Inr (if ready reg
                 then details\<lparr>Details.AuthorizationEndpoint := authorizationEndpoint reg,
                              Details.validationKeys := validationKeys reg\<rparr>
                 else details))"

text \<open>
  \<^verbatim>\<open>func (r *Registry) Default(ctx context.Context) *Details\<close>: the error of
  \<^verbatim>\<open>Lookup\<close> is dropped, and \<open>None\<close> is the nil pointer.
\<close>

definition Registry_Default :: "Registry \<Rightarrow> Mem \<Rightarrow> Details option" where
  "Registry_Default r m =
    (case Lookup r m (defaultID r) of Inl _ \<Rightarrow> None | Inr authority \<Rightarrow> Some authority)"

subsection \<open>NewRegistry\<close>

text \<open>
  The collaborators of \<^verbatim>\<open>NewRegistry\<close> whose code is outside registry.go are
  parameters: \<^verbatim>\<open>ioutil.ReadFile\<close>, \<^verbatim>\<open>yaml.Unmarshal\<close> into a fresh
  \<^verbatim>\<open>RegistryData\<close> (the result is its \<^verbatim>\<open>Authorities\<close> list), and the method
  \<^verbatim>\<open>Validate\<close> of a registration (\<open>None\<close> is a nil error), taken to read the
  registration without writing to it. The parsed list holds structs: a null entry
  of the list, a nil pointer on which line 67 panics, is outside the model.
\<close>

record Env =
  ReadFile :: "string \<Rightarrow> error + string"
  Unmarshal :: "string \<Rightarrow> error + AuthorityRegistration list"
  Validate :: "AuthorityRegistration \<Rightarrow> error option"

text \<open>Lines 43 to 56: the parsed entries with the log written, or the error returned.\<close>

definition registryData ::
  "Env \<Rightarrow> string \<Rightarrow> error + (AuthorityRegistration list \<times> LogEntry list)" where
  "registryData env registrationConfFilepath =
    (if registrationConfFilepath \<noteq> []
     then (case ReadFile env registrationConfFilepath of
             Inl err \<Rightarrow> Inl err
           | Inr registryFile \<Rightarrow>
               (case Unmarshal env registryFile of
                  Inl err \<Rightarrow> Inl err
                | Inr auths \<Rightarrow>
                    Inr (auths,
                         [LogEntry DebugLevel
                            (''parsing authorities registration conf from '' @
                             registrationConfFilepath) None])))
     else Inr ([], []))"

text \<open>
  The deserializer allocates one struct per entry. In the model entry \<open>i\<close> of the
  list lives at address \<open>i\<close>, and every other address holds the zero value.
\<close>

definition zero_registration :: AuthorityRegistration where
  "zero_registration =
    \<lparr>ID = [], Name = [], AuthorityType = [], ClientID = [], ClientSecret = [],
     Insecure = False, Default = False, discover = False, IdentityAliasRequired = False,
     Scopes = [], ResponseType = [], CodeChallengeMethod = [], IdentityClaimName = [],
     ready = False, authorizationEndpoint = None, validationKeys = None\<rparr>"

definition alloc :: "AuthorityRegistration list \<Rightarrow> addr \<Rightarrow> AuthorityRegistration" where
  "alloc auths p = (if p < length auths then auths ! p else zero_registration)"

text \<open>
  One iteration of the loop of lines 65 to 101. The state is the registry, the
  memory and the local \<^verbatim>\<open>defaultAuthority\<close> (\<open>None\<close> is nil). \<^verbatim>\<open>Register\<close> is called
  before either error is looked at, as in the source. The goroutine started at line
  98 is recorded in \<open>spawned\<close>; what it writes later is not part of this call.
\<close>

definition NewRegistry_iter ::
  "Consts \<Rightarrow> Env \<Rightarrow> addr \<Rightarrow> Registry \<times> Mem \<times> addr option \<Rightarrow> Registry \<times> Mem \<times> addr option" where
  "NewRegistry_iter c env authority s =
    (case s of (r, m, defaultAuthority) \<Rightarrow>
       let validateErr = Validate env (heap m authority) in
       (case Register c authority r m of (registerErr, r1, m1) \<Rightarrow>
          if validateErr \<noteq> None
          then (r1,
                logln WarnLevel ''skipped registration of invalid authority entry''
                  validateErr m1,
                defaultAuthority)
          else if registerErr \<noteq> None
          then (r1,
                logln WarnLevel ''skipped registration of invalid authority''
                  registerErr m1,
                defaultAuthority)
          else
            (case (if Default (heap m1 authority) \<or> defaultAuthority = None
                   then (case defaultAuthority of
                           None \<Rightarrow> (m1, Some authority)
                         | Some da \<Rightarrow>
                             if \<not> Default (heap m1 da)
                             then (m1, Some authority)
                             else (logln WarnLevel
                                     ''ignored default authority flag since already have a default''
                                     None m1,
                                   defaultAuthority))
                   else (logln WarnLevel
                           ''non-default additional authorities are not supported yet''
                           None m1,
                         defaultAuthority))
             of (m2, defaultAuthority') \<Rightarrow>
               (r1,
                logln DebugLevel ''registered authority'' None
                  (m2\<lparr>spawned := spawned m2 @ [authority]\<rparr>),
                defaultAuthority'))))"

fun NewRegistry_loop ::
  "Consts \<Rightarrow> Env \<Rightarrow> addr list \<Rightarrow> Registry \<times> Mem \<times> addr option \<Rightarrow> Registry \<times> Mem \<times> addr option" where
  "NewRegistry_loop c env [] s = s"
| "NewRegistry_loop c env (authority # rest) s =
     NewRegistry_loop c env rest (NewRegistry_iter c env authority s)"

text \<open>Lines 103 to 110: the elected default is written to \<open>defaultID\<close>.\<close>

definition NewRegistry_finish :: "Registry \<times> Mem \<times> addr option \<Rightarrow> Registry \<times> Mem" where
  "NewRegistry_finish s =
    (case s of (r, m, defaultAuthority) \<Rightarrow>
       (case defaultAuthority of
          None \<Rightarrow> (r, m)
        | Some da \<Rightarrow>
            if Default (heap m da)
            then (r\<lparr>defaultID := ID (heap m da)\<rparr>,
                  logln InfoLevel ''using external default authority'' None m)
            else (r, logln WarnLevel ''non-default authorities are not supported yet'' None m)))"

text \<open>
  \<^verbatim>\<open>NewRegistry\<close>: \<open>Inl\<close> is \<^verbatim>\<open>(nil, err)\<close>, \<open>Inr\<close> is the registry returned with a
  nil error, together with the memory after the call.
\<close>

definition NewRegistry :: "Consts \<Rightarrow> Env \<Rightarrow> string \<Rightarrow> error + (Registry \<times> Mem)" where
  "NewRegistry c env registrationConfFilepath =
    (case registryData env registrationConfFilepath of
       Inl err \<Rightarrow> Inl err
     | Inr (auths, lg) \<Rightarrow>
         Inr (NewRegistry_finish
                (NewRegistry_loop c env [0..<length auths]
                   (\<lparr>defaultID = [], authorities = Map.empty\<rparr>,
                    \<lparr>heap = alloc auths, log = lg, spawned = []\<rparr>,
                    None))))"

subsection \<open>What Register does to one registration\<close>

text \<open>
  Three functions of the struct alone, used to state the properties below:
  the ID under which a registration is filed, the error \<^verbatim>\<open>Register\<close> returns for it,
  and the struct it leaves behind. \<open>Register_conv\<close> proves that the code above
  computes exactly these.
\<close>

definition effectiveID :: "AuthorityRegistration \<Rightarrow> string" where
  "effectiveID a = (if ID a = [] then Name a else ID a)"

definition register_error :: "Consts \<Rightarrow> AuthorityRegistration \<Rightarrow> error option" where
  "register_error c a =
    (if ID a = [] \<and> Name a = [] then Some NoAuthorityID
     else if ClientID a = [] then Some InvalidAuthorityClientID
     else if AuthorityType a = AuthorityTypeOIDC c then None
     else Some (UnknownAuthorityType (AuthorityType a)))"

definition register_struct :: "Consts \<Rightarrow> AuthorityRegistration \<Rightarrow> AuthorityRegistration" where
  "register_struct c a =
    (if register_error c a = None
     then a\<lparr>ID := effectiveID a,
            Scopes := (if Scopes a = [] then authorityDefaultScopes c else Scopes a),
            ResponseType :=
              (if ResponseType a = [] then authorityDefaultResponseType c else ResponseType a),
            CodeChallengeMethod :=
              (if CodeChallengeMethod a = [] then authorityDefaultCodeChallengeMethod c
               else CodeChallengeMethod a),
            IdentityClaimName :=
              (if IdentityClaimName a = [] then authorityDefaultIdentityClaimName c
               else IdentityClaimName a)\<rparr>
     else a\<lparr>ID := effectiveID a\<rparr>)"

definition register_log :: "AuthorityRegistration \<Rightarrow> LogEntry list" where
  "register_log a =
    (if ID a = [] \<and> Name a \<noteq> []
     then [LogEntry WarnLevel ''authority has no id, using name'' None] else [])"

subsection \<open>What one iteration of the load does\<close>

text \<open>
  An entry passes the load when \<^verbatim>\<open>Validate\<close> and \<^verbatim>\<open>Register\<close> both return nil:
  these are the entries that reach line 87.
\<close>

definition accepted :: "Consts \<Rightarrow> Env \<Rightarrow> AuthorityRegistration \<Rightarrow> bool" where
  "accepted c env a \<longleftrightarrow> Validate env a = None \<and> register_error c a = None"

text \<open>The warning of line 91.\<close>

definition ignored_default_warning :: LogEntry where
  "ignored_default_warning =
    LogEntry WarnLevel ''ignored default authority flag since already have a default'' None"

text \<open>
  The value of \<^verbatim>\<open>defaultAuthority\<close> counts as an elected default only when it is
  non-nil and its \<^verbatim>\<open>Default\<close> flag is set (the test of lines 88 and 104).
\<close>

definition elected :: "(addr \<Rightarrow> AuthorityRegistration) \<Rightarrow> addr option \<Rightarrow> addr option" where
  "elected h d =
    (case d of None \<Rightarrow> None | Some da \<Rightarrow> if Default (h da) then Some da else None)"

text \<open>
  The log entries of one iteration, proved to be what the code writes in
  \<open>NewRegistry_iter_conv\<close>.
\<close>

definition iter_log ::
  "Consts \<Rightarrow> Env \<Rightarrow> (addr \<Rightarrow> AuthorityRegistration) \<Rightarrow> addr \<Rightarrow> addr option \<Rightarrow> LogEntry list" where
  "iter_log c env h p d =
    register_log (h p) @
    (if Validate env (h p) \<noteq> None
     then [LogEntry WarnLevel ''skipped registration of invalid authority entry''
             (Validate env (h p))]
     else if register_error c (h p) \<noteq> None
     then [LogEntry WarnLevel ''skipped registration of invalid authority''
             (register_error c (h p))]
     else (if Default (h p) \<or> d = None
           then (if elected h d = None then [] else [ignored_default_warning])
           else [LogEntry WarnLevel
                   ''non-default additional authorities are not supported yet'' None]) @
          [LogEntry DebugLevel ''registered authority'' None])"

subsection \<open>Sample data\<close>

text \<open>
  Concrete values at which the theorems below are instantiated. The constants are
  sample values of the right types; no theorem depends on them.
\<close>

definition example_consts :: Consts where
  "example_consts =
    \<lparr>AuthorityTypeOIDC = ''oidc'',
     authorityDefaultScopes = [''openid'', ''profile''],
     authorityDefaultResponseType = ''id_token'',
     authorityDefaultCodeChallengeMethod = ''S256'',
     authorityDefaultIdentityClaimName = ''sub''\<rparr>"

definition example_mem :: "AuthorityRegistration list \<Rightarrow> Mem" where
  "example_mem auths = \<lparr>heap = alloc auths, log = [], spawned = []\<rparr>"

definition empty_registry :: Registry where
  "empty_registry = \<lparr>defaultID = [], authorities = Map.empty\<rparr>"

definition example_entry :: AuthorityRegistration where
  "example_entry =
    zero_registration\<lparr>Name := ''upstream'', AuthorityType := ''oidc'',
       ClientID := ''konnect'', ResponseType := ''code''\<rparr>"

definition invalid_entry :: AuthorityRegistration where
  "invalid_entry =
    zero_registration\<lparr>ID := ''bad'', AuthorityType := ''oidc'', ClientID := ''konnect'',
       Insecure := True, Default := True\<rparr>"

definition example_entries :: "AuthorityRegistration list" where
  "example_entries =
    [invalid_entry,
     zero_registration\<lparr>ID := ''first'', AuthorityType := ''oidc'', ClientID := ''konnect''\<rparr>,
     example_entry\<lparr>Default := True\<rparr>,
     zero_registration\<lparr>ID := ''third'', AuthorityType := ''oidc'', ClientID := ''konnect'',
       Default := True\<rparr>]"

definition example_env :: Env where
  "example_env =
    \<lparr>ReadFile = (\<lambda>path.
        if path = ''invalid.yaml'' then Inr ''invalid''
        else if path = ''registration.yaml'' then Inr ''authorities''
        else if path = ''broken.yaml'' then Inr ''broken''
        else Inl (ExternalError ''no such file or directory'')),
     Unmarshal = (\<lambda>registryFile.
        if registryFile = ''invalid'' then Inr [invalid_entry]
        else if registryFile = ''authorities'' then Inr example_entries
        else Inl (ExternalError ''cannot unmarshal'')),
     Validate = (\<lambda>a.
        if Insecure a then Some (ExternalError ''insecure authority'') else None)\<rparr>"

definition ready_entry :: AuthorityRegistration where
  "ready_entry =
    example_entry\<lparr>ID := ''upstream'', ready := True,
      authorizationEndpoint := Some (URL ''https://idp.example.com/authorize'')\<rparr>"

definition example_registry :: Registry where
  "example_registry = \<lparr>defaultID = ''upstream'', authorities = [''upstream'' \<mapsto> 0]\<rparr>"

definition pending_entry :: AuthorityRegistration where
  "pending_entry =
    example_entry\<lparr>ID := ''upstream'',
      authorizationEndpoint := Some (URL ''https://idp.example.com/authorize'')\<rparr>"

section \<open>Properties\<close>

subsection \<open>The store\<close>

lemma store_simps [simp]:
  "heap (store p f m) = (heap m)(p := f (heap m p))"
  "log (store p f m) = log m"
  "spawned (store p f m) = spawned m"
  by (simp_all add: store_def)

lemma logln_simps [simp]:
  "heap (logln lv msg e m) = heap m"
  "log (logln lv msg e m) = log m @ [LogEntry lv msg e]"
  "spawned (logln lv msg e m) = spawned m"
  by (simp_all add: logln_def)

lemma Mem_eqI:
  "heap m = heap m' \<Longrightarrow> log m = log m' \<Longrightarrow> spawned m = spawned m' \<Longrightarrow> m = (m'::Mem)"
  by simp

lemma store_ifs:
  "(if Scopes (heap m p) = [] then store p (\<lambda>a. a\<lparr>Scopes := d1\<rparr>) m else m) =
     store p (\<lambda>a. if Scopes a = [] then a\<lparr>Scopes := d1\<rparr> else a) m"
  "(if ResponseType (heap m p) = [] then store p (\<lambda>a. a\<lparr>ResponseType := d2\<rparr>) m else m) =
     store p (\<lambda>a. if ResponseType a = [] then a\<lparr>ResponseType := d2\<rparr> else a) m"
  "(if CodeChallengeMethod (heap m p) = []
    then store p (\<lambda>a. a\<lparr>CodeChallengeMethod := d3\<rparr>) m else m) =
     store p (\<lambda>a. if CodeChallengeMethod a = [] then a\<lparr>CodeChallengeMethod := d3\<rparr> else a) m"
  "(if IdentityClaimName (heap m p) = []
    then store p (\<lambda>a. a\<lparr>IdentityClaimName := d4\<rparr>) m else m) =
     store p (\<lambda>a. if IdentityClaimName a = [] then a\<lparr>IdentityClaimName := d4\<rparr> else a) m"
  by (rule Mem_eqI; simp)+

lemma ensure_defaults:
  "store p (\<lambda>a. if IdentityClaimName a = [] then a\<lparr>IdentityClaimName := d4\<rparr> else a)
    (store p (\<lambda>a. if CodeChallengeMethod a = [] then a\<lparr>CodeChallengeMethod := d3\<rparr> else a)
      (store p (\<lambda>a. if ResponseType a = [] then a\<lparr>ResponseType := d2\<rparr> else a)
        (store p (\<lambda>a. if Scopes a = [] then a\<lparr>Scopes := d1\<rparr> else a) m))) =
   store p
     (\<lambda>a. a\<lparr>Scopes := (if Scopes a = [] then d1 else Scopes a),
            ResponseType := (if ResponseType a = [] then d2 else ResponseType a),
            CodeChallengeMethod :=
              (if CodeChallengeMethod a = [] then d3 else CodeChallengeMethod a),
            IdentityClaimName :=
              (if IdentityClaimName a = [] then d4 else IdentityClaimName a)\<rparr>) m"
  by (rule Mem_eqI) simp_all

subsection \<open>Register, as a function of the struct it is given\<close>

lemma ID_update_same: "ID a = x \<Longrightarrow> a\<lparr>ID := x\<rparr> = a"
  by (cases a) simp

lemma register_struct_no_id:
  "ID a = [] \<Longrightarrow> Name a = [] \<Longrightarrow> register_struct c a = a"
  by (simp add: register_struct_def register_error_def effectiveID_def ID_update_same)

lemma Register_conv:
  "Register c p r m =
    (register_error c (heap m p),
     (if register_error c (heap m p) = None
      then r\<lparr>authorities := (authorities r)(effectiveID (heap m p) \<mapsto> p)\<rparr> else r),
     m\<lparr>heap := (heap m)(p := register_struct c (heap m p)),
       log := log m @ register_log (heap m p)\<rparr>)"
proof (cases "ID (heap m p) = [] \<and> Name (heap m p) = []")
  case True
  then show ?thesis
    by (simp add: Register_def register_struct_no_id register_log_def)
      (simp add: register_error_def)
next
  case False
  show ?thesis
    unfolding Register_def Let_def store_ifs ensure_defaults
    using False
    by (auto simp: register_error_def register_log_def register_struct_def effectiveID_def
        ID_update_same intro!: Mem_eqI)
qed

lemma register_error_struct [simp]:
  "register_error c (register_struct c a) = register_error c a"
  by (simp add: register_struct_def register_error_def effectiveID_def)

lemma effectiveID_struct [simp]:
  "effectiveID (register_struct c a) = effectiveID a"
  by (simp add: register_struct_def effectiveID_def)

lemma Default_struct [simp]: "Default (register_struct c a) = Default a"
  by (simp add: register_struct_def)

lemma ID_struct: "register_error c a = None \<Longrightarrow> ID (register_struct c a) = effectiveID a"
  by (simp add: register_struct_def)

lemma effectiveID_nonempty: "register_error c a = None \<Longrightarrow> effectiveID a \<noteq> []"
  by (auto simp: register_error_def effectiveID_def split: if_splits)

subsection \<open>The sample data\<close>

lemma example_mem_heap:
  "heap (example_mem [example_entry, ready_entry]) 0 = example_entry"
  "heap (example_mem [example_entry, ready_entry]) 1 = ready_entry"
  by (simp_all add: example_mem_def alloc_def)

lemma example_mem_single: "heap (example_mem [a]) 0 = a"
  by (simp add: example_mem_def alloc_def)

lemma example_effectiveID:
  "effectiveID example_entry = ''upstream''"
  "effectiveID ready_entry = ''upstream''"
  by (simp_all add: effectiveID_def example_entry_def ready_entry_def zero_registration_def)

lemma example_register_error:
  "register_error example_consts example_entry = None"
  "register_error example_consts ready_entry = None"
  by (simp_all add: register_error_def example_consts_def example_entry_def ready_entry_def
      zero_registration_def)

lemma example_registry_keys:
  "authorities example_registry ''upstream'' = Some 0"
  "authorities example_registry ''other'' = None"
  "defaultID example_registry = ''upstream''"
  by (simp_all add: example_registry_def)

lemma ready_entry_fields:
  "ID ready_entry = ''upstream''" "ClientID ready_entry = ''konnect''" "ready ready_entry"
  "authorizationEndpoint ready_entry = Some (URL ''https://idp.example.com/authorize'')"
  "validationKeys ready_entry = None"
  by (simp_all add: ready_entry_def example_entry_def zero_registration_def)

lemma pending_entry_fields:
  "ID pending_entry = ''upstream''" "\<not> ready pending_entry"
  "authorizationEndpoint pending_entry = Some (URL ''https://idp.example.com/authorize'')"
  by (simp_all add: pending_entry_def example_entry_def zero_registration_def)

subsection \<open>The errors of Register\<close>

text \<open>
  C3, as the code has it. \<^verbatim>\<open>Register\<close> makes its three checks in order and returns
  at the first that fails. It returns the identifier error exactly when ID and Name
  are both empty; the client error exactly when ID and Name are not both empty and
  ClientID is empty; the unsupported-type error exactly when neither of these holds
  and AuthorityType is not OIDC, and that error names the registration's type.
  Whenever it returns an error the registry (its map and its default ID) is
  unchanged.
\<close>

theorem Register_errors:
  "(fst (Register c p r m) = Some NoAuthorityID \<longleftrightarrow>
      ID (heap m p) = [] \<and> Name (heap m p) = []) \<and>
   (fst (Register c p r m) = Some InvalidAuthorityClientID \<longleftrightarrow>
      (ID (heap m p) \<noteq> [] \<or> Name (heap m p) \<noteq> []) \<and> ClientID (heap m p) = []) \<and>
   ((\<exists>t. fst (Register c p r m) = Some (UnknownAuthorityType t)) \<longleftrightarrow>
      (ID (heap m p) \<noteq> [] \<or> Name (heap m p) \<noteq> []) \<and> ClientID (heap m p) \<noteq> [] \<and>
      AuthorityType (heap m p) \<noteq> AuthorityTypeOIDC c) \<and>
   (\<forall>t. fst (Register c p r m) = Some (UnknownAuthorityType t) \<longrightarrow>
      t = AuthorityType (heap m p)) \<and>
   (fst (Register c p r m) \<noteq> None \<longrightarrow> fst (snd (Register c p r m)) = r)"
  by (simp add: Register_conv register_error_def)

text \<open>
  An entry with an ID, no ClientID and the type \<open>saml\<close>: the client error, although
  the type is not OIDC, and the registry is unchanged.
\<close>

theorem Register_errors_witness:
  "fst (Register example_consts 0 empty_registry
         (example_mem [zero_registration\<lparr>ID := ''a'', AuthorityType := ''saml''\<rparr>])) =
     Some InvalidAuthorityClientID \<and>
   fst (snd (Register example_consts 0 empty_registry
         (example_mem [zero_registration\<lparr>ID := ''a'', AuthorityType := ''saml''\<rparr>]))) =
     empty_registry"
  using Register_errors [of example_consts 0 empty_registry
      "example_mem [zero_registration\<lparr>ID := ''a'', AuthorityType := ''saml''\<rparr>]"]
  by (simp add: example_mem_def alloc_def zero_registration_def)

text \<open>
  C3 as stated fails: the zero-valued entry has an empty ClientID, and \<^verbatim>\<open>Register\<close>
  returns the identifier error for it, not the client error.
\<close>

theorem Register_client_error_counterexample:
  "ClientID (heap (example_mem [zero_registration]) 0) = [] \<and>
   fst (Register example_consts 0 empty_registry (example_mem [zero_registration])) \<noteq>
     Some InvalidAuthorityClientID"
  by (simp add: Register_def example_mem_def alloc_def zero_registration_def)

subsection \<open>The defaults of Register\<close>

text \<open>
  C5. When \<^verbatim>\<open>Register\<close> accepts a registration, its type is OIDC, and afterwards
  each of Scopes, ResponseType, CodeChallengeMethod and IdentityClaimName holds the
  package default if the caller left it empty and the caller's value otherwise.
\<close>

theorem Register_fills_defaults:
  assumes "fst (Register c p r m) = None"
  shows "AuthorityType (heap m p) = AuthorityTypeOIDC c \<and>
    Scopes (heap (snd (snd (Register c p r m))) p) =
      (if Scopes (heap m p) = [] then authorityDefaultScopes c else Scopes (heap m p)) \<and>
    ResponseType (heap (snd (snd (Register c p r m))) p) =
      (if ResponseType (heap m p) = [] then authorityDefaultResponseType c
       else ResponseType (heap m p)) \<and>
    CodeChallengeMethod (heap (snd (snd (Register c p r m))) p) =
      (if CodeChallengeMethod (heap m p) = [] then authorityDefaultCodeChallengeMethod c
       else CodeChallengeMethod (heap m p)) \<and>
    IdentityClaimName (heap (snd (snd (Register c p r m))) p) =
      (if IdentityClaimName (heap m p) = [] then authorityDefaultIdentityClaimName c
       else IdentityClaimName (heap m p))"
  using assms
  by (simp add: Register_conv register_struct_def) (simp add: register_error_def split: if_splits)

text \<open>
  An entry with a ResponseType and nothing else: the other three fields get their
  defaults, ResponseType keeps \<open>code\<close>.
\<close>

theorem Register_fills_defaults_witness:
  "fst (Register example_consts 0 empty_registry (example_mem [example_entry])) = None \<and>
   Scopes (heap (snd (snd (Register example_consts 0 empty_registry
      (example_mem [example_entry])))) 0) = [''openid'', ''profile''] \<and>
   ResponseType (heap (snd (snd (Register example_consts 0 empty_registry
      (example_mem [example_entry])))) 0) = ''code'' \<and>
   CodeChallengeMethod (heap (snd (snd (Register example_consts 0 empty_registry
      (example_mem [example_entry])))) 0) = ''S256'' \<and>
   IdentityClaimName (heap (snd (snd (Register example_consts 0 empty_registry
      (example_mem [example_entry])))) 0) = ''sub''"
proof -
  have ok: "fst (Register example_consts 0 empty_registry (example_mem [example_entry])) = None"
    by (simp add: Register_def example_consts_def example_mem_def example_entry_def
        alloc_def zero_registration_def Let_def)
  show ?thesis
    using ok Register_fills_defaults [OF ok]
    by (simp add: example_consts_def example_mem_def example_entry_def alloc_def
        zero_registration_def)
qed

subsection \<open>What Register leaves alone\<close>

text \<open>
  C10. \<^verbatim>\<open>Register\<close> writes through its argument, whether it succeeds or fails, in
  five fields only. ID becomes Name when it was empty and is unchanged otherwise;
  each of Scopes, ResponseType, CodeChallengeMethod and IdentityClaimName is
  unchanged unless it was empty. Name, AuthorityType, ClientID, ClientSecret, the
  flags Insecure, Default, discover and IdentityAliasRequired, and the discovery
  fields ready, authorizationEndpoint and validationKeys are unchanged, and so is
  every other registration in the store.
\<close>

theorem Register_frame:
  "ID (heap (snd (snd (Register c p r m))) p) =
     (if ID (heap m p) = [] then Name (heap m p) else ID (heap m p)) \<and>
   (Scopes (heap (snd (snd (Register c p r m))) p) = Scopes (heap m p) \<or>
      Scopes (heap m p) = []) \<and>
   (ResponseType (heap (snd (snd (Register c p r m))) p) = ResponseType (heap m p) \<or>
      ResponseType (heap m p) = []) \<and>
   (CodeChallengeMethod (heap (snd (snd (Register c p r m))) p) =
      CodeChallengeMethod (heap m p) \<or> CodeChallengeMethod (heap m p) = []) \<and>
   (IdentityClaimName (heap (snd (snd (Register c p r m))) p) =
      IdentityClaimName (heap m p) \<or> IdentityClaimName (heap m p) = []) \<and>
   Name (heap (snd (snd (Register c p r m))) p) = Name (heap m p) \<and>
   AuthorityType (heap (snd (snd (Register c p r m))) p) = AuthorityType (heap m p) \<and>
   ClientID (heap (snd (snd (Register c p r m))) p) = ClientID (heap m p) \<and>
   ClientSecret (heap (snd (snd (Register c p r m))) p) = ClientSecret (heap m p) \<and>
   Insecure (heap (snd (snd (Register c p r m))) p) = Insecure (heap m p) \<and>
   Default (heap (snd (snd (Register c p r m))) p) = Default (heap m p) \<and>
   discover (heap (snd (snd (Register c p r m))) p) = discover (heap m p) \<and>
   IdentityAliasRequired (heap (snd (snd (Register c p r m))) p) =
     IdentityAliasRequired (heap m p) \<and>
   ready (heap (snd (snd (Register c p r m))) p) = ready (heap m p) \<and>
   authorizationEndpoint (heap (snd (snd (Register c p r m))) p) =
     authorizationEndpoint (heap m p) \<and>
   validationKeys (heap (snd (snd (Register c p r m))) p) = validationKeys (heap m p) \<and>
   (\<forall>q. q \<noteq> p \<longrightarrow> heap (snd (snd (Register c p r m))) q = heap m q)"
  by (simp add: Register_conv register_struct_def effectiveID_def)

text \<open>
  Registering the entry at address 0, which has a name and no ID: its ID becomes the
  name, the fields it had are kept, and the entry at address 1 is untouched.
\<close>

theorem Register_frame_witness:
  "ID (heap (snd (snd (Register example_consts 0 empty_registry
       (example_mem [example_entry, invalid_entry])))) 0) = ''upstream'' \<and>
   Name (heap (snd (snd (Register example_consts 0 empty_registry
       (example_mem [example_entry, invalid_entry])))) 0) = ''upstream'' \<and>
   ResponseType (heap (snd (snd (Register example_consts 0 empty_registry
       (example_mem [example_entry, invalid_entry])))) 0) = ''code'' \<and>
   ClientID (heap (snd (snd (Register example_consts 0 empty_registry
       (example_mem [example_entry, invalid_entry])))) 0) = ''konnect'' \<and>
   heap (snd (snd (Register example_consts 0 empty_registry
       (example_mem [example_entry, invalid_entry])))) 1 = invalid_entry"
  using Register_frame [of example_consts 0 empty_registry
      "example_mem [example_entry, invalid_entry]"]
  by (simp add: example_mem_def alloc_def example_entry_def zero_registration_def)

subsection \<open>Last write wins\<close>

text \<open>
  C6. Take two registrations that \<^verbatim>\<open>Register\<close> accepts on their own and that resolve
  to the same effective ID. Registering the first and then the second returns no
  error either time; after the first call the map holds the first under that ID,
  after the second it holds the second, and every other key is as it was before
  both calls.
\<close>

theorem Register_last_write_wins:
  assumes "fst (Register c p r m) = None"
    and "fst (Register c q r m) = None"
    and "effectiveID (heap m p) = effectiveID (heap m q)"
  shows "case Register c p r m of (e1, r1, m1) \<Rightarrow>
           (case Register c q r1 m1 of (e2, r2, m2) \<Rightarrow>
              e1 = None \<and> e2 = None \<and>
              authorities r1 (effectiveID (heap m p)) = Some p \<and>
              authorities r2 (effectiveID (heap m p)) = Some q \<and>
              (\<forall>k. k \<noteq> effectiveID (heap m p) \<longrightarrow> authorities r2 k = authorities r k))"
proof -
  let ?k = "effectiveID (heap m p)"
  let ?r1 = "r\<lparr>authorities := (authorities r)(?k \<mapsto> p)\<rparr>"
  let ?m1 = "m\<lparr>heap := (heap m)(p := register_struct c (heap m p)),
                log := log m @ register_log (heap m p)\<rparr>"
  have e1: "register_error c (heap m p) = None"
    using assms(1) by (simp add: Register_conv)
  have e2: "register_error c (heap m q) = None"
    using assms(2) by (simp add: Register_conv)
  have first: "Register c p r m = (None, ?r1, ?m1)"
    by (simp add: Register_conv e1)
  have err: "register_error c (heap ?m1 q) = None"
    by (cases "q = p") (simp_all add: e1 e2)
  have key: "effectiveID (heap ?m1 q) = ?k"
    by (cases "q = p") (simp_all add: assms(3) [symmetric])
  have second: "Register c q ?r1 ?m1 =
      (None, ?r1\<lparr>authorities := (authorities ?r1)(?k \<mapsto> q)\<rparr>,
       ?m1\<lparr>heap := (heap ?m1)(q := register_struct c (heap ?m1 q)),
            log := log ?m1 @ register_log (heap ?m1 q)\<rparr>)"
    unfolding Register_conv [of c q ?r1 ?m1] err key by simp
  show ?thesis
    using second by (simp add: first)
qed

text \<open>
  Two entries that both resolve to \<open>upstream\<close>, the first by its name and the second
  by its ID.
\<close>

theorem Register_last_write_wins_witness:
  "(case Register example_consts 0 empty_registry (example_mem [example_entry, ready_entry]) of
      (e1, r1, m1) \<Rightarrow>
        (case Register example_consts 1 r1 m1 of
           (e2, r2, m2) \<Rightarrow>
             e1 = None \<and> e2 = None \<and> authorities r1 ''upstream'' = Some 0 \<and>
             authorities r2 ''upstream'' = Some 1))"
proof -
  let ?m = "example_mem [example_entry, ready_entry]"
  have h1: "fst (Register example_consts 0 empty_registry ?m) = None"
    unfolding Register_conv example_mem_heap by (simp add: example_register_error)
  have h2: "fst (Register example_consts 1 empty_registry ?m) = None"
    unfolding Register_conv example_mem_heap by (simp add: example_register_error)
  have h3: "effectiveID (heap ?m 0) = effectiveID (heap ?m 1)"
    unfolding example_mem_heap by (simp add: example_effectiveID)
  show ?thesis
    using Register_last_write_wins [OF h1 h2 h3]
    unfolding example_mem_heap example_effectiveID
    by (simp split: prod.splits)
qed

subsection \<open>Lookup\<close>

text \<open>
  C4. \<^verbatim>\<open>Lookup\<close> returns an error exactly when the ID is empty or is not a key of
  the map, and the error is the unknown-authority error naming the ID. Otherwise it
  returns a \<open>Details\<close> whose static fields are those of the stored registration,
  whose \<open>ready\<close> is the registration's, and whose AuthorizationEndpoint and
  validationKeys are the registration's when \<open>ready\<close> is set and nil otherwise.
\<close>

theorem Lookup_spec:
  "((\<exists>e. Lookup r m authorityID = Inl e) \<longleftrightarrow>
      authorityID = [] \<or> authorities r authorityID = None) \<and>
   (authorityID = [] \<or> authorities r authorityID = None \<longrightarrow>
      Lookup r m authorityID = Inl (UnknownAuthorityID authorityID)) \<and>
   (\<forall>p. authorityID \<noteq> [] \<and> authorities r authorityID = Some p \<longrightarrow>
      (\<exists>d. Lookup r m authorityID = Inr d \<and>
         Details.ID d = ID (heap m p) \<and>
         Details.Name d = Name (heap m p) \<and>
         Details.AuthorityType d = AuthorityType (heap m p) \<and>
         Details.ClientID d = ClientID (heap m p) \<and>
         Details.ClientSecret d = ClientSecret (heap m p) \<and>
         Details.Insecure d = Insecure (heap m p) \<and>
         Details.Scopes d = Scopes (heap m p) \<and>
         Details.ResponseType d = ResponseType (heap m p) \<and>
         Details.CodeChallengeMethod d = CodeChallengeMethod (heap m p) \<and>
         Details.Registration d = p \<and>
         Details.ready d = ready (heap m p) \<and>
         Details.AuthorizationEndpoint d =
           (if ready (heap m p) then authorizationEndpoint (heap m p) else None) \<and>
         Details.validationKeys d =
           (if ready (heap m p) then validationKeys (heap m p) else None)))"
  by (auto simp: Lookup_def Get_def Let_def split: option.splits)

text \<open>
  The empty ID, an unknown ID, a registration that is ready, and one whose endpoint is
  set while \<open>ready\<close> is not.
\<close>

theorem Lookup_spec_witness:
  "Lookup example_registry (example_mem [ready_entry]) [] = Inl (UnknownAuthorityID []) \<and>
   Lookup example_registry (example_mem [ready_entry]) ''other'' =
     Inl (UnknownAuthorityID ''other'') \<and>
   (\<exists>d. Lookup example_registry (example_mem [ready_entry]) ''upstream'' = Inr d \<and>
        Details.ID d = ''upstream'' \<and> Details.ClientID d = ''konnect'' \<and>
        Details.ready d \<and>
        Details.AuthorizationEndpoint d = Some (URL ''https://idp.example.com/authorize'') \<and>
        Details.validationKeys d = None) \<and>
   (\<exists>d. Lookup example_registry (example_mem [pending_entry]) ''upstream'' = Inr d \<and>
        \<not> Details.ready d \<and> Details.AuthorizationEndpoint d = None)"
  using Lookup_spec [of example_registry "example_mem [ready_entry]" "[]"]
    Lookup_spec [of example_registry "example_mem [ready_entry]" "''other''"]
    Lookup_spec [of example_registry "example_mem [ready_entry]" "''upstream''"]
    Lookup_spec [of example_registry "example_mem [pending_entry]" "''upstream''"]
  by (auto simp: example_registry_keys example_mem_single ready_entry_fields
      pending_entry_fields)

subsection \<open>The loop of NewRegistry\<close>

lemma NewRegistry_iter_conv:
  "NewRegistry_iter c env p (r, m, d) =
    ((if register_error c (heap m p) = None
      then r\<lparr>authorities := (authorities r)(effectiveID (heap m p) \<mapsto> p)\<rparr> else r),
     m\<lparr>heap := (heap m)(p := register_struct c (heap m p)),
       log := log m @ iter_log c env (heap m) p d,
       spawned := spawned m @ (if accepted c env (heap m p) then [p] else [])\<rparr>,
     (if accepted c env (heap m p) \<and> elected (heap m) d = None \<and>
         (Default (heap m p) \<or> d = None)
      then Some p else d))"
  by (cases d)
    (auto simp: NewRegistry_iter_def Register_conv iter_log_def accepted_def elected_def
      ignored_default_warning_def logln_def)

lemma elected_upd [simp]:
  "elected (h(p := register_struct c (h p))) d = elected h d"
  by (simp add: elected_def split: option.splits)

lemma filter_upd:
  "p \<notin> set ps \<Longrightarrow>
   filter (\<lambda>q. accepted c env ((h(p := x)) q)) ps = filter (\<lambda>q. accepted c env (h q)) ps"
  by (rule filter_cong) auto

lemma Default_upd [simp]:
  "Default ((h(p := register_struct c (h p))) q) = Default (h q)"
  by simp

lemma loop_defaultID:
  "defaultID (fst (NewRegistry_loop c env ps (r, m, d))) = defaultID r"
  by (induction ps arbitrary: r m d) (simp_all add: NewRegistry_iter_conv)

lemma loop_heap:
  "distinct ps \<Longrightarrow>
   heap (fst (snd (NewRegistry_loop c env ps (r, m, d)))) q =
     (if q \<in> set ps then register_struct c (heap m q) else heap m q)"
proof (induction ps arbitrary: r m d)
  case Nil
  show ?case by simp
next
  case (Cons p ps)
  then have "p \<notin> set ps" "distinct ps" by simp_all
  then show ?case
    by (auto simp: NewRegistry_iter_conv Cons.IH)
qed

lemma loop_spawned:
  "distinct ps \<Longrightarrow>
   spawned (fst (snd (NewRegistry_loop c env ps (r, m, d)))) =
     spawned m @ filter (\<lambda>p. accepted c env (heap m p)) ps"
proof (induction ps arbitrary: r m d)
  case Nil
  show ?case by simp
next
  case (Cons p ps)
  then have "p \<notin> set ps" "distinct ps" by simp_all
  then show ?case
    by (simp add: NewRegistry_iter_conv Cons.IH filter_upd del: fun_upd_apply)
qed

lemma loop_elected:
  "distinct ps \<Longrightarrow>
   elected (heap m) (snd (snd (NewRegistry_loop c env ps (r, m, d)))) =
     (case elected (heap m) d of
        Some da \<Rightarrow> Some da
      | None \<Rightarrow> find (\<lambda>p. Default (heap m p)) (filter (\<lambda>p. accepted c env (heap m p)) ps))"
proof (induction ps arbitrary: r m d)
  case Nil
  show ?case by (simp split: option.splits)
next
  case (Cons p ps)
  then have p: "p \<notin> set ps" and ps: "distinct ps" by simp_all
  obtain r1 m1 d1 where it: "NewRegistry_iter c env p (r, m, d) = (r1, m1, d1)"
    by (cases "NewRegistry_iter c env p (r, m, d)") auto
  then have h1: "heap m1 = (heap m)(p := register_struct c (heap m p))"
    and d1: "d1 = (if accepted c env (heap m p) \<and> elected (heap m) d = None \<and>
         (Default (heap m p) \<or> d = None) then Some p else d)"
    by (auto simp: NewRegistry_iter_conv)
  have "elected (heap m) (snd (snd (NewRegistry_loop c env (p # ps) (r, m, d)))) =
      elected (heap m1) (snd (snd (NewRegistry_loop c env ps (r1, m1, d1))))"
    by (simp add: it h1)
  also have "\<dots> = (case elected (heap m1) d1 of
        Some da \<Rightarrow> Some da
      | None \<Rightarrow> find (\<lambda>p. Default (heap m1 p)) (filter (\<lambda>p. accepted c env (heap m1 p)) ps))"
    by (rule Cons.IH [OF ps])
  also have "\<dots> = (case elected (heap m) d1 of
        Some da \<Rightarrow> Some da
      | None \<Rightarrow> find (\<lambda>p. Default (heap m p)) (filter (\<lambda>p. accepted c env (heap m p)) ps))"
  proof -
    have "(\<lambda>q. Default (heap m1 q)) = (\<lambda>q. Default (heap m q))"
      by (rule ext) (simp add: h1)
    moreover have "filter (\<lambda>q. accepted c env (heap m1 q)) ps =
        filter (\<lambda>q. accepted c env (heap m q)) ps"
      using p by (simp add: h1 filter_upd del: fun_upd_apply)
    moreover have "elected (heap m1) d1 = elected (heap m) d1"
      by (simp add: h1)
    ultimately show ?thesis by (simp cong: option.case_cong)
  qed
  also have "\<dots> = (case elected (heap m) d of
        Some da \<Rightarrow> Some da
      | None \<Rightarrow> find (\<lambda>p. Default (heap m p))
          (filter (\<lambda>p. accepted c env (heap m p)) (p # ps)))"
    unfolding d1 by (cases d) (auto simp: elected_def split: option.splits)
  finally show ?case .
qed

lemma count_register_log [simp]:
  "count_list (register_log a) ignored_default_warning = 0"
  by (simp add: register_log_def ignored_default_warning_def)

lemma count_iter_log:
  "count_list (iter_log c env h p d) ignored_default_warning =
    (if accepted c env (h p) \<and> Default (h p) \<and> elected h d \<noteq> None then 1 else 0)"
  by (cases d) (auto simp: iter_log_def accepted_def elected_def ignored_default_warning_def
      register_log_def)

lemma loop_warnings:
  "distinct ps \<Longrightarrow>
   count_list (log (fst (snd (NewRegistry_loop c env ps (r, m, d))))) ignored_default_warning =
     count_list (log m) ignored_default_warning +
     (if elected (heap m) d = None
      then length (filter (\<lambda>p. Default (heap m p))
             (filter (\<lambda>p. accepted c env (heap m p)) ps)) - 1
      else length (filter (\<lambda>p. Default (heap m p))
             (filter (\<lambda>p. accepted c env (heap m p)) ps)))"
proof (induction ps arbitrary: r m d)
  case Nil
  show ?case by simp
next
  case (Cons p ps)
  then have p: "p \<notin> set ps" and ps: "distinct ps" by simp_all
  obtain r1 m1 d1 where it: "NewRegistry_iter c env p (r, m, d) = (r1, m1, d1)"
    by (cases "NewRegistry_iter c env p (r, m, d)") auto
  then have h1: "heap m1 = (heap m)(p := register_struct c (heap m p))"
    and l1: "log m1 = log m @ iter_log c env (heap m) p d"
    and d1: "d1 = (if accepted c env (heap m p) \<and> elected (heap m) d = None \<and>
         (Default (heap m p) \<or> d = None) then Some p else d)"
    by (auto simp: NewRegistry_iter_conv)
  let ?k = "\<lambda>h. length (filter (\<lambda>p. Default (h p)) (filter (\<lambda>p. accepted c env (h p)) ps))"
  have D: "(\<lambda>q. Default (heap m1 q)) = (\<lambda>q. Default (heap m q))"
    by (rule ext) (simp add: h1)
  have F: "filter (\<lambda>q. accepted c env (heap m1 q)) ps =
        filter (\<lambda>q. accepted c env (heap m q)) ps"
    using p by (simp add: h1 filter_upd del: fun_upd_apply)
  have E: "elected (heap m1) d1 = elected (heap m) d1"
    by (simp add: h1)
  have "count_list (log (fst (snd (NewRegistry_loop c env (p # ps) (r, m, d)))))
          ignored_default_warning =
      count_list (log (fst (snd (NewRegistry_loop c env ps (r1, m1, d1)))))
          ignored_default_warning"
    by (simp add: it)
  also have "\<dots> = count_list (log m1) ignored_default_warning +
     (if elected (heap m1) d1 = None then ?k (heap m1) - 1 else ?k (heap m1))"
    by (rule Cons.IH [OF ps])
  also have "\<dots> = count_list (log m) ignored_default_warning +
     (if accepted c env (heap m p) \<and> Default (heap m p) \<and> elected (heap m) d \<noteq> None
      then 1 else 0) +
     (if elected (heap m) d1 = None then ?k (heap m) - 1 else ?k (heap m))"
    unfolding D F E l1 by (simp add: count_iter_log)
  also have "\<dots> = count_list (log m) ignored_default_warning +
     (if elected (heap m) d = None
      then length (filter (\<lambda>p. Default (heap m p))
             (filter (\<lambda>p. accepted c env (heap m p)) (p # ps))) - 1
      else length (filter (\<lambda>p. Default (heap m p))
             (filter (\<lambda>p. accepted c env (heap m p)) (p # ps))))"
    unfolding d1 by (cases d) (auto simp: elected_def split: option.splits)
  finally show ?case .
qed

lemma loop_dom_mono:
  "authorities r k \<noteq> None \<Longrightarrow>
   authorities (fst (NewRegistry_loop c env ps (r, m, d))) k \<noteq> None"
  by (induction ps arbitrary: r m d) (simp_all add: NewRegistry_iter_conv)

lemma loop_registered:
  "distinct ps \<Longrightarrow> p \<in> set ps \<Longrightarrow> register_error c (heap m p) = None \<Longrightarrow>
   authorities (fst (NewRegistry_loop c env ps (r, m, d))) (effectiveID (heap m p)) \<noteq> None"
proof (induction ps arbitrary: r m d)
  case Nil
  then show ?case by simp
next
  case (Cons q ps)
  show ?case
  proof (cases "p = q")
    case True
    with Cons.prems show ?thesis
      by (simp add: NewRegistry_iter_conv loop_dom_mono)
  next
    case False
    with Cons.prems have p: "p \<in> set ps" and ps: "distinct ps" and q: "q \<noteq> p"
      by auto
    obtain r1 m1 d1 where it: "NewRegistry_iter c env q (r, m, d) = (r1, m1, d1)"
      by (cases "NewRegistry_iter c env q (r, m, d)") auto
    then have h1: "heap m1 = (heap m)(q := register_struct c (heap m q))"
      by (auto simp: NewRegistry_iter_conv)
    have "register_error c (heap m1 p) = None"
      using Cons.prems(3) q by (simp add: h1)
    from Cons.IH [OF ps p this, of r1 d1] show ?thesis
      using q by (simp add: it h1)
  qed
qed

lemma loop_authorities:
  "distinct ps \<Longrightarrow> authorities (fst (NewRegistry_loop c env ps (r, m, d))) k = Some p \<Longrightarrow>
   authorities r k = Some p \<or>
   (p \<in> set ps \<and> register_error c (heap m p) = None \<and> effectiveID (heap m p) = k)"
proof (induction ps arbitrary: r m d)
  case Nil
  then show ?case by simp
next
  case (Cons q ps)
  then have q: "q \<notin> set ps" and ps: "distinct ps" by simp_all
  obtain r1 m1 d1 where it: "NewRegistry_iter c env q (r, m, d) = (r1, m1, d1)"
    by (cases "NewRegistry_iter c env q (r, m, d)") auto
  then have h1: "heap m1 = (heap m)(q := register_struct c (heap m q))"
    and r1: "r1 = (if register_error c (heap m q) = None
      then r\<lparr>authorities := (authorities r)(effectiveID (heap m q) \<mapsto> q)\<rparr> else r)"
    by (auto simp: NewRegistry_iter_conv)
  have "authorities (fst (NewRegistry_loop c env ps (r1, m1, d1))) k = Some p"
    using Cons.prems(2) by (simp add: it)
  from Cons.IH [OF ps this]
  have "authorities r1 k = Some p \<or>
    (p \<in> set ps \<and> register_error c (heap m1 p) = None \<and> effectiveID (heap m1 p) = k)" .
  then show ?case
  proof
    assume "authorities r1 k = Some p"
    then show ?thesis
      by (auto simp: r1 split: if_splits)
  next
    assume a: "p \<in> set ps \<and> register_error c (heap m1 p) = None \<and> effectiveID (heap m1 p) = k"
    then have "p \<noteq> q" using q by auto
    with a show ?thesis by (simp add: h1)
  qed
qed

lemma finish_conv:
  "defaultID (fst (NewRegistry_finish (r, m, d))) =
     (case elected (heap m) d of None \<Rightarrow> defaultID r | Some da \<Rightarrow> ID (heap m da))"
  "authorities (fst (NewRegistry_finish (r, m, d))) = authorities r"
  "heap (snd (NewRegistry_finish (r, m, d))) = heap m"
  "spawned (snd (NewRegistry_finish (r, m, d))) = spawned m"
  "count_list (log (snd (NewRegistry_finish (r, m, d)))) ignored_default_warning =
     count_list (log m) ignored_default_warning"
  by (auto simp: NewRegistry_finish_def elected_def ignored_default_warning_def
      split: option.splits)

lemma alloc_map: "map (alloc auths) [0..<length auths] = auths"
proof -
  have "map (alloc auths) [0..<length auths] = map ((!) auths) [0..<length auths]"
    by (rule map_cong) (simp_all add: alloc_def)
  then show ?thesis by (simp add: map_nth)
qed

lemma find_map: "find P (map f xs) = map_option f (find (\<lambda>x. P (f x)) xs)"
  by (induction xs) simp_all

lemma filter_alloc:
  "filter P auths = map (alloc auths) (filter (\<lambda>p. P (alloc auths p)) [0..<length auths])"
proof -
  have "filter P auths = filter P (map (alloc auths) [0..<length auths])"
    by (simp add: alloc_map)
  then show ?thesis by (simp add: filter_map comp_def)
qed

lemma find_filter_alloc:
  "find Q (filter P auths) =
     map_option (alloc auths)
       (find (\<lambda>p. Q (alloc auths p)) (filter (\<lambda>p. P (alloc auths p)) [0..<length auths]))"
  by (subst filter_alloc) (simp add: find_map)

lemma length_filter_alloc:
  "length (filter Q (filter P auths)) =
     length (filter (\<lambda>p. Q (alloc auths p)) (filter (\<lambda>p. P (alloc auths p)) [0..<length auths]))"
  by (subst filter_alloc) (simp add: filter_map comp_def)

lemma NewRegistry_ok:
  "registryData env path = Inr (auths, lg) \<Longrightarrow>
   NewRegistry c env path =
     Inr (NewRegistry_finish
            (NewRegistry_loop c env [0..<length auths]
               (\<lparr>defaultID = [], authorities = Map.empty\<rparr>,
                \<lparr>heap = alloc auths, log = lg, spawned = []\<rparr>,
                None)))"
  by (simp add: NewRegistry_def)

lemma registryData_log:
  "registryData env path = Inr (auths, lg) \<Longrightarrow> count_list lg ignored_default_warning = 0"
  by (auto simp: registryData_def ignored_default_warning_def split: if_splits sum.splits)

lemma elected_None [simp]: "elected h None = None"
  by (simp add: elected_def)

lemma find_SomeD: "find P xs = Some x \<Longrightarrow> P x \<and> x \<in> set xs"
  by (induction xs) (auto split: if_splits)

text \<open>
  The registry and the memory that \<^verbatim>\<open>NewRegistry\<close> returns for a parsed list of
  entries, in terms of the addresses \<open>0, \<dots>, length auths - 1\<close> of the entries:
  every entry has been through \<^verbatim>\<open>Register\<close>; the default ID is that of the first
  accepted entry with the Default flag; discovery was started for the accepted
  entries, in order; and the map holds exactly the entries \<^verbatim>\<open>Register\<close> accepted,
  each under its own ID.
\<close>

lemma NewRegistry_result:
  assumes "registryData env path = Inr (auths, lg)"
  shows "\<exists>r m. NewRegistry c env path = Inr (r, m) \<and>
    (\<forall>q. heap m q =
       (if q < length auths then register_struct c (alloc auths q) else alloc auths q)) \<and>
    defaultID r =
      (case find (\<lambda>p. Default (alloc auths p))
              (filter (\<lambda>p. accepted c env (alloc auths p)) [0..<length auths]) of
         None \<Rightarrow> []
       | Some da \<Rightarrow> ID (register_struct c (alloc auths da))) \<and>
    count_list (log m) ignored_default_warning =
      length (filter (\<lambda>p. Default (alloc auths p))
        (filter (\<lambda>p. accepted c env (alloc auths p)) [0..<length auths])) - 1 \<and>
    spawned m = filter (\<lambda>p. accepted c env (alloc auths p)) [0..<length auths] \<and>
    (\<forall>k p. authorities r k = Some p \<longrightarrow>
       p < length auths \<and> register_error c (alloc auths p) = None \<and>
       effectiveID (alloc auths p) = k) \<and>
    (\<forall>p. p < length auths \<and> register_error c (alloc auths p) = None \<longrightarrow>
       authorities r (effectiveID (alloc auths p)) \<noteq> None)"
proof -
  let ?ps = "[0..<length auths]"
  let ?r0 = "\<lparr>defaultID = [], authorities = Map.empty\<rparr>"
  let ?m0 = "\<lparr>heap = alloc auths, log = lg, spawned = []\<rparr>"
  obtain r' m' d' where loop: "NewRegistry_loop c env ?ps (?r0, ?m0, None) = (r', m', d')"
    by (cases "NewRegistry_loop c env ?ps (?r0, ?m0, None)") auto
  obtain r m where fin: "NewRegistry_finish (r', m', d') = (r, m)"
    by (cases "NewRegistry_finish (r', m', d')") auto
  have res: "NewRegistry c env path = Inr (r, m)"
    using assms by (simp add: NewRegistry_ok loop fin)
  have dist: "distinct ?ps" by simp
  have heap': "\<And>q. heap m' q =
      (if q < length auths then register_struct c (alloc auths q) else alloc auths q)"
    using loop_heap [OF dist, of c env ?r0 ?m0 None] by (simp add: loop)
  have heap_m: "heap m = heap m'"
    using finish_conv(3) [of r' m' d'] by (simp add: fin)
  have dflt: "\<And>q. Default (heap m' q) = Default (alloc auths q)"
    by (simp add: heap')
  have el: "elected (heap m') d' = elected (alloc auths) d'"
    by (simp add: elected_def dflt split: option.splits)
  have found: "elected (alloc auths) d' =
      find (\<lambda>p. Default (alloc auths p)) (filter (\<lambda>p. accepted c env (alloc auths p)) ?ps)"
    using loop_elected [OF dist, of ?m0 c env ?r0 None] by (simp add: loop)
  have id0: "defaultID r' = []"
    using loop_defaultID [of c env ?ps ?r0 ?m0 None] by (simp add: loop)
  have did: "defaultID r =
      (case elected (alloc auths) d' of None \<Rightarrow> [] | Some da \<Rightarrow> ID (heap m' da))"
    using finish_conv(1) [of r' m' d'] by (simp add: fin el id0 cong: option.case_cong)
  have c2: "defaultID r =
      (case find (\<lambda>p. Default (alloc auths p))
              (filter (\<lambda>p. accepted c env (alloc auths p)) ?ps) of
         None \<Rightarrow> []
       | Some da \<Rightarrow> ID (register_struct c (alloc auths da)))"
  proof (cases "elected (alloc auths) d'")
    case None
    then show ?thesis
      using found by (simp add: did)
  next
    case (Some da)
    then have f: "find (\<lambda>p. Default (alloc auths p))
        (filter (\<lambda>p. accepted c env (alloc auths p)) ?ps) = Some da"
      using found by simp
    then have "da \<in> set ?ps"
      by (auto dest!: find_SomeD)
    then show ?thesis
      using Some by (simp add: did f heap')
  qed
  have c3: "count_list (log m) ignored_default_warning =
      length (filter (\<lambda>p. Default (alloc auths p))
        (filter (\<lambda>p. accepted c env (alloc auths p)) ?ps)) - 1"
  proof -
    have "count_list (log m) ignored_default_warning =
        count_list (log m') ignored_default_warning"
      using finish_conv(5) [of r' m' d'] by (simp add: fin)
    also have "\<dots> = count_list lg ignored_default_warning +
        (length (filter (\<lambda>p. Default (alloc auths p))
           (filter (\<lambda>p. accepted c env (alloc auths p)) ?ps)) - 1)"
      using loop_warnings [OF dist, of c env ?r0 ?m0 None] by (simp add: loop)
    finally show ?thesis
      unfolding registryData_log [OF assms] by simp
  qed
  have c4: "spawned m = filter (\<lambda>p. accepted c env (alloc auths p)) ?ps"
    using loop_spawned [OF dist, of c env ?r0 ?m0 None] finish_conv(4) [of r' m' d']
    by (simp add: loop fin)
  have auth: "authorities r = authorities r'"
    using finish_conv(2) [of r' m' d'] by (simp add: fin)
  have c5: "\<forall>k p. authorities r k = Some p \<longrightarrow>
       p < length auths \<and> register_error c (alloc auths p) = None \<and>
       effectiveID (alloc auths p) = k"
  proof (intro allI impI)
    fix k p
    assume "authorities r k = Some p"
    then have "authorities (fst (NewRegistry_loop c env ?ps (?r0, ?m0, None))) k = Some p"
      by (simp add: loop auth)
    from loop_authorities [OF dist this]
    show "p < length auths \<and> register_error c (alloc auths p) = None \<and>
       effectiveID (alloc auths p) = k"
      by simp
  qed
  have c6: "\<forall>p. p < length auths \<and> register_error c (alloc auths p) = None \<longrightarrow>
       authorities r (effectiveID (alloc auths p)) \<noteq> None"
  proof (intro allI impI)
    fix p
    assume "p < length auths \<and> register_error c (alloc auths p) = None"
    then have "p \<in> set ?ps" "register_error c (heap ?m0 p) = None"
      by simp_all
    from loop_registered [OF dist this, of env ?r0 None]
    show "authorities r (effectiveID (alloc auths p)) \<noteq> None"
      by (simp add: loop auth)
  qed
  show ?thesis
    using res heap' heap_m c2 c3 c4 c5 c6 by (intro exI conjI) simp_all
qed

lemma NewRegistry_InrD:
  "NewRegistry c env path = Inr (r, m) \<Longrightarrow> \<exists>auths lg. registryData env path = Inr (auths, lg)"
  by (cases "registryData env path") (auto simp: NewRegistry_def)

lemma NewRegistry_default_registered:
  assumes "NewRegistry c env path = Inr (r, m)" and "defaultID r \<noteq> []"
  shows "\<exists>p. authorities r (defaultID r) = Some p \<and> ID (heap m p) = defaultID r"
proof -
  from NewRegistry_InrD [OF assms(1)]
  obtain auths lg where rd: "registryData env path = Inr (auths, lg)" by blast
  let ?found = "find (\<lambda>p. Default (alloc auths p))
        (filter (\<lambda>p. accepted c env (alloc auths p)) [0..<length auths])"
  from NewRegistry_result [OF rd, of c] assms(1)
  have hp: "\<And>q. heap m q =
       (if q < length auths then register_struct c (alloc auths q) else alloc auths q)"
    and did: "defaultID r =
      (case ?found of None \<Rightarrow> [] | Some da \<Rightarrow> ID (register_struct c (alloc auths da)))"
    and stored: "\<And>k p. authorities r k = Some p \<Longrightarrow>
       p < length auths \<and> register_error c (alloc auths p) = None \<and>
       effectiveID (alloc auths p) = k"
    and present: "\<And>p. p < length auths \<Longrightarrow> register_error c (alloc auths p) = None \<Longrightarrow>
       authorities r (effectiveID (alloc auths p)) \<noteq> None"
    by auto
  from did assms(2) obtain da where f: "?found = Some da"
    by (cases ?found) auto
  then have da: "da < length auths" "accepted c env (alloc auths da)"
    by (auto dest!: find_SomeD)
  then have ok: "register_error c (alloc auths da) = None"
    by (simp add: accepted_def)
  have key: "defaultID r = effectiveID (alloc auths da)"
    using did f ok by (simp add: ID_struct)
  from present [OF da(1) ok] obtain p where p: "authorities r (defaultID r) = Some p"
    by (auto simp: key)
  from stored [OF p] have "ID (heap m p) = defaultID r"
    by (simp add: hp ID_struct)
  with p show ?thesis by blast
qed

subsection \<open>Default election\<close>

text \<open>
  C2. Read "successfully registered" as: the entry passed both \<^verbatim>\<open>Validate\<close> and
  \<^verbatim>\<open>Register\<close>, so that the loop did not skip it. Then after \<^verbatim>\<open>NewRegistry\<close> the
  default ID is the ID (as \<^verbatim>\<open>Register\<close> resolved it) of the first such entry with
  \<open>Default\<close> set, and it is empty when there is none, whatever the first entry is.
  Every later such entry with \<open>Default\<close> set is ignored with one warning each, so
  the number of these warnings is the number of such entries less one.
\<close>

theorem NewRegistry_default_election:
  assumes "registryData env path = Inr (auths, lg)"
  shows "\<exists>r m. NewRegistry c env path = Inr (r, m) \<and>
    defaultID r =
      (case find Default (filter (accepted c env) auths) of
         None \<Rightarrow> []
       | Some a \<Rightarrow> ID (register_struct c a)) \<and>
    count_list (log m) ignored_default_warning =
      length (filter Default (filter (accepted c env) auths)) - 1"
proof -
  have f: "find Default (filter (accepted c env) auths) =
      map_option (alloc auths)
       (find (\<lambda>p. Default (alloc auths p))
          (filter (\<lambda>p. accepted c env (alloc auths p)) [0..<length auths]))"
    by (rule find_filter_alloc)
  have l: "length (filter Default (filter (accepted c env) auths)) =
      length (filter (\<lambda>p. Default (alloc auths p))
        (filter (\<lambda>p. accepted c env (alloc auths p)) [0..<length auths]))"
    by (rule length_filter_alloc)
  from NewRegistry_result [OF assms, of c]
  obtain r m where "NewRegistry c env path = Inr (r, m)"
    and "defaultID r =
      (case find (\<lambda>p. Default (alloc auths p))
              (filter (\<lambda>p. accepted c env (alloc auths p)) [0..<length auths]) of
         None \<Rightarrow> []
       | Some da \<Rightarrow> ID (register_struct c (alloc auths da)))"
    and "count_list (log m) ignored_default_warning =
      length (filter (\<lambda>p. Default (alloc auths p))
        (filter (\<lambda>p. accepted c env (alloc auths p)) [0..<length auths])) - 1"
    by blast
  then show ?thesis
    unfolding f l by (auto split: option.splits)
qed

lemma example_registryData:
  "registryData example_env ''registration.yaml'' =
     Inr (example_entries,
          [LogEntry DebugLevel
             ''parsing authorities registration conf from registration.yaml'' None])"
  by (simp add: registryData_def example_env_def)

lemma example_accepted:
  "filter (accepted example_consts example_env) example_entries =
    [zero_registration\<lparr>ID := ''first'', AuthorityType := ''oidc'', ClientID := ''konnect''\<rparr>,
     example_entry\<lparr>Default := True\<rparr>,
     zero_registration\<lparr>ID := ''third'', AuthorityType := ''oidc'', ClientID := ''konnect'',
       Default := True\<rparr>]"
  by (simp add: example_entries_def accepted_def register_error_def example_env_def
      example_consts_def invalid_entry_def example_entry_def zero_registration_def)

text \<open>
  Four entries: one that fails \<^verbatim>\<open>Validate\<close> with the flag set, one without the flag,
  and two with it. The third entry is elected, under its name, and one warning is
  logged for the fourth.
\<close>

theorem NewRegistry_default_election_witness:
  "\<exists>r m. NewRegistry example_consts example_env ''registration.yaml'' = Inr (r, m) \<and>
     defaultID r = ''upstream'' \<and>
     count_list (log m) ignored_default_warning = 1"
  using NewRegistry_default_election [OF example_registryData, of example_consts]
  unfolding example_accepted
  by (simp add: example_entry_def zero_registration_def register_struct_def
      register_error_def effectiveID_def example_consts_def)

subsection \<open>Entries that fail Validate\<close>

text \<open>
  \<^verbatim>\<open>NewRegistry\<close> calls \<^verbatim>\<open>Register\<close> on line 67, before it looks at the result of
  \<^verbatim>\<open>Validate\<close> on line 79. An entry that \<^verbatim>\<open>Register\<close> accepts is therefore in the
  map whatever \<^verbatim>\<open>Validate\<close> returned for it.
\<close>

lemma NewRegistry_registers_without_Validate:
  assumes "registryData env path = Inr (auths, lg)"
    and "a \<in> set auths" and "register_error c a = None"
  shows "\<exists>r m. NewRegistry c env path = Inr (r, m) \<and> authorities r (effectiveID a) \<noteq> None"
proof -
  from assms(2) obtain p where p: "p < length auths" "auths ! p = a"
    by (auto simp: in_set_conv_nth)
  then have "alloc auths p = a" by (simp add: alloc_def)
  with NewRegistry_result [OF assms(1), of c] p(1) assms(3) show ?thesis
    by blast
qed

lemma invalid_registryData:
  "registryData example_env ''invalid.yaml'' =
     Inr ([invalid_entry],
          [LogEntry DebugLevel
             ''parsing authorities registration conf from invalid.yaml'' None])"
  by (simp add: registryData_def example_env_def)

text \<open>
  C1 at a configuration with one entry that fails \<^verbatim>\<open>Validate\<close> and has an ID, a
  ClientID and the OIDC type. The entry is logged as skipped, no default is elected
  and no discovery is started, but the entry is in the map and \<^verbatim>\<open>Lookup\<close> returns
  its details.
\<close>

theorem NewRegistry_registers_invalid_entry:
  "Validate example_env invalid_entry = Some (ExternalError ''insecure authority'') \<and>
   (\<exists>r m. NewRegistry example_consts example_env ''invalid.yaml'' = Inr (r, m) \<and>
      authorities r ''bad'' = Some 0 \<and>
      (\<exists>d. Lookup r m ''bad'' = Inr d \<and> Details.ID d = ''bad'' \<and>
           Details.Registration d = 0) \<and>
      defaultID r = [] \<and> spawned m = [] \<and>
      LogEntry WarnLevel ''skipped registration of invalid authority entry''
        (Some (ExternalError ''insecure authority'')) \<in> set (log m))"
  unfolding NewRegistry_ok [OF invalid_registryData]
  by (simp add: NewRegistry_iter_conv
      NewRegistry_finish_def accepted_def register_error_def register_struct_def
      effectiveID_def iter_log_def register_log_def alloc_def invalid_entry_def
      zero_registration_def example_env_def example_consts_def Lookup_def Get_def Let_def)

subsection \<open>Default\<close>

text \<open>
  C7. \<^verbatim>\<open>Default\<close> returns nil when the default ID is empty. When the default ID is
  a key of the map it returns the details of the registration stored under it, as
  \<^verbatim>\<open>Lookup\<close> does. After \<^verbatim>\<open>NewRegistry\<close> a non-empty default ID is always a key of
  the map, so \<^verbatim>\<open>Default\<close> returns details then, and their ID is the default ID.
\<close>

theorem Default_spec:
  "(defaultID r = [] \<longrightarrow> Registry_Default r m = None) \<and>
   (\<forall>p. defaultID r \<noteq> [] \<and> authorities r (defaultID r) = Some p \<longrightarrow>
      (\<exists>d. Registry_Default r m = Some d \<and> Lookup r m (defaultID r) = Inr d \<and>
           Details.Registration d = p \<and> Details.ID d = ID (heap m p))) \<and>
   (\<forall>c env path. NewRegistry c env path = Inr (r, m) \<and> defaultID r \<noteq> [] \<longrightarrow>
      (\<exists>d. Registry_Default r m = Some d \<and> Details.ID d = defaultID r))"
proof (intro conjI allI impI)
  show "Registry_Default r m = None" if "defaultID r = []"
    using that by (simp add: Registry_Default_def Lookup_def Get_def)
next
  fix p
  assume "defaultID r \<noteq> [] \<and> authorities r (defaultID r) = Some p"
  then show "\<exists>d. Registry_Default r m = Some d \<and> Lookup r m (defaultID r) = Inr d \<and>
           Details.Registration d = p \<and> Details.ID d = ID (heap m p)"
    by (simp add: Registry_Default_def Lookup_def Get_def Let_def)
next
  fix c env path
  assume a: "NewRegistry c env path = Inr (r, m) \<and> defaultID r \<noteq> []"
  then obtain p where "authorities r (defaultID r) = Some p" "ID (heap m p) = defaultID r"
    using NewRegistry_default_registered [of c env path r m] by blast
  with a show "\<exists>d. Registry_Default r m = Some d \<and> Details.ID d = defaultID r"
    by (simp add: Registry_Default_def Lookup_def Get_def Let_def)
qed

lemma example_NewRegistry:
  "\<exists>r m. NewRegistry example_consts example_env ''registration.yaml'' = Inr (r, m) \<and>
     defaultID r = ''upstream''"
  using NewRegistry_result [OF example_registryData, of example_consts]
  by (auto simp: example_entries_def accepted_def register_error_def example_env_def
      example_consts_def invalid_entry_def example_entry_def zero_registration_def
      alloc_def register_struct_def effectiveID_def upt_rec [of 0] upt_rec [of "Suc 0"])

text \<open>
  The empty registry, a registry with a default, and the registry loaded from the
  sample configuration.
\<close>

theorem Default_spec_witness:
  "Registry_Default empty_registry (example_mem []) = None \<and>
   (\<exists>d. Registry_Default example_registry (example_mem [ready_entry]) = Some d \<and>
        Details.ID d = ''upstream'' \<and> Details.Registration d = 0) \<and>
   (\<exists>r m. NewRegistry example_consts example_env ''registration.yaml'' = Inr (r, m) \<and>
        defaultID r = ''upstream'' \<and>
        (\<exists>d. Registry_Default r m = Some d \<and> Details.ID d = ''upstream''))"
proof -
  from example_NewRegistry obtain r m
    where n: "NewRegistry example_consts example_env ''registration.yaml'' = Inr (r, m)"
      and d: "defaultID r = ''upstream''"
    by blast
  have ne: "defaultID r \<noteq> []"
    using d by simp
  have "\<exists>d. Registry_Default r m = Some d \<and> Details.ID d = defaultID r"
    using Default_spec [of r m] n ne by blast
  then have 3: "\<exists>r m. NewRegistry example_consts example_env ''registration.yaml'' = Inr (r, m) \<and>
        defaultID r = ''upstream'' \<and>
        (\<exists>d. Registry_Default r m = Some d \<and> Details.ID d = ''upstream'')"
    using n d by auto
  have 1: "Registry_Default empty_registry (example_mem []) = None"
    using Default_spec [of empty_registry "example_mem []"] by (simp add: empty_registry_def)
  have 2: "\<exists>d. Registry_Default example_registry (example_mem [ready_entry]) = Some d \<and>
        Details.ID d = ''upstream'' \<and> Details.Registration d = 0"
    using Default_spec [of example_registry "example_mem [ready_entry]"]
    by (auto simp: example_registry_keys example_mem_single ready_entry_fields)
  show ?thesis
    using 1 2 3 by blast
qed

subsection \<open>The configuration path\<close>

text \<open>
  C8. With an empty path \<^verbatim>\<open>NewRegistry\<close> returns, with no error, a registry with an
  empty map and an empty default ID; nothing is logged and no discovery is started.
  With a non-empty path, an error of \<^verbatim>\<open>ReadFile\<close> or of \<^verbatim>\<open>Unmarshal\<close> is returned
  as it is, with no registry.
\<close>

theorem NewRegistry_paths:
  "NewRegistry c env [] =
     Inr (\<lparr>defaultID = [], authorities = Map.empty\<rparr>,
          \<lparr>heap = (\<lambda>p. zero_registration), log = [], spawned = []\<rparr>) \<and>
   (\<forall>err. path \<noteq> [] \<and> ReadFile env path = Inl err \<longrightarrow> NewRegistry c env path = Inl err) \<and>
   (\<forall>registryFile err.
      path \<noteq> [] \<and> ReadFile env path = Inr registryFile \<and>
      Unmarshal env registryFile = Inl err \<longrightarrow> NewRegistry c env path = Inl err)"
  by (auto simp: NewRegistry_def registryData_def NewRegistry_finish_def alloc_def)

text \<open>The empty path, a file that is missing and a file that does not parse.\<close>

theorem NewRegistry_paths_witness:
  "NewRegistry example_consts example_env [] =
     Inr (\<lparr>defaultID = [], authorities = Map.empty\<rparr>,
          \<lparr>heap = (\<lambda>p. zero_registration), log = [], spawned = []\<rparr>) \<and>
   NewRegistry example_consts example_env ''missing.yaml'' =
     Inl (ExternalError ''no such file or directory'') \<and>
   NewRegistry example_consts example_env ''broken.yaml'' =
     Inl (ExternalError ''cannot unmarshal'')"
  using NewRegistry_paths [of example_consts example_env "''missing.yaml''"]
    NewRegistry_paths [of example_consts example_env "''broken.yaml''"]
  by (simp add: example_env_def)

end
